theory Spec2Isabelle
  imports Complex_Main "HOL-Library.Word"
begin

section \<open>ANTelbrot: a Mandelbrot viewer by perturbation theory\<close>

text \<open>
  The development follows \<^verbatim>\<open>src/main.cpp\<close>. A finite \<^verbatim>\<open>double\<close> is modelled by the real
  number it denotes, a \<^verbatim>\<open>std::complex<double>\<close> by a \<^typ>\<open>complex\<close>, and an \<^verbatim>\<open>mpf_class\<close> by
  the real it denotes. Sizes and loop counters stay far below \<open>2^31\<close> (the orbit is at most
  \<^verbatim>\<open>depth\<close> long, an \<^verbatim>\<open>int\<close>), so they are natural numbers.

  Rounding is modelled where a result hangs on it. The loop counter \<^verbatim>\<open>d\<close> of
  \<^verbatim>\<open>color_table\<close> is a \<^verbatim>\<open>double\<close> that is incremented by \<^verbatim>\<open>0.01\<close>, and how many passes
  that loop makes is a question about binary64 addition. Every result of \<^verbatim>\<open>mpf_class\<close>
  arithmetic is rounded to the mantissa of the working precision, and the samples of the
  reference orbit are the iterates as rounded. The complex arithmetic of \<^verbatim>\<open>pt\<close> and the
  logarithms of \<^verbatim>\<open>palette\<close> are taken exact; what is proved about them uses the control
  flow and the integer conversions only.
\<close>

subsection \<open>Errors\<close>

text \<open>
  Operations whose behaviour C++ leaves undefined are results of their own: a division by
  zero, a conversion of a \<^verbatim>\<open>double\<close> that is not finite or does not fit the \<^verbatim>\<open>int\<close>,
  a write outside a vertex array.
\<close>

datatype error =
    Division_by_zero
  | Undefined_conversion
  | Index_out_of_bounds

definition bindE :: "error + 'a \<Rightarrow> ('a \<Rightarrow> error + 'b) \<Rightarrow> error + 'b" where
  "bindE m f = (case m of Inl e \<Rightarrow> Inl e | Inr a \<Rightarrow> f a)"

subsection \<open>Binary64 arithmetic\<close>

text \<open>
  \<open>norm_exp n x e\<close> scales a positive \<open>x\<close> into \<open>[1, 2)\<close> and counts the binary exponent;
  \<open>n\<close> bounds the number of steps, and 1100 steps reach every exponent of a binary64
  number. Subnormal numbers and overflow are not modelled.
\<close>

primrec norm_exp :: "nat \<Rightarrow> real \<Rightarrow> int \<Rightarrow> int" where
  "norm_exp 0 x e = e"
| "norm_exp (Suc n) x e =
     (if 2 \<le> x then norm_exp n (x / 2) (e + 1)
      else if x < 1 then norm_exp n (x * 2) (e - 1)
      else e)"

definition pow2 :: "int \<Rightarrow> real" where
  "pow2 e = (if 0 \<le> e then 2 ^ nat e else 1 / 2 ^ nat (- e))"

text \<open>Rounding to the nearest integer, a tie going to the even one.\<close>

definition round_half_even :: "real \<Rightarrow> int" where
  "round_half_even m =
     (let f = \<lfloor>m\<rfloor>; d = m - of_int f
      in if d < 1 / 2 then f else if 1 / 2 < d then f + 1 else if even f then f else f + 1)"

text \<open>Rounding a real to the nearest number with a significand of 53 bits.\<close>

definition dbl_round :: "real \<Rightarrow> real" where
  "dbl_round x =
     (if x = 0 then 0
      else let ulp = pow2 (norm_exp 1100 \<bar>x\<bar> 0 - 52)
           in of_int (round_half_even (x / ulp)) * ulp)"

definition dbl_add :: "real \<Rightarrow> real \<Rightarrow> real" where
  "dbl_add a b = dbl_round (a + b)"

definition dbl_mul :: "real \<Rightarrow> real \<Rightarrow> real" where
  "dbl_mul a b = dbl_round (a * b)"

text \<open>The literal \<^verbatim>\<open>0.01\<close>.\<close>

definition c001 :: real where
  "c001 = dbl_round (1 / 100)"

text \<open>
  The conversion of a \<^verbatim>\<open>double\<close> to \<^verbatim>\<open>int\<close> drops the fraction; it is undefined
  when the result does not fit 32 bits.
\<close>

definition trunc :: "real \<Rightarrow> int" where
  "trunc y = (if 0 \<le> y then \<lfloor>y\<rfloor> else \<lceil>y\<rceil>)"

definition double_to_int :: "real \<Rightarrow> error + int" where
  "double_to_int y =
     (if - (2 ^ 31) - 1 < y \<and> y < 2 ^ 31 then Inr (trunc y) else Inl Undefined_conversion)"

subsection \<open>Colours (\<^verbatim>\<open>interpolate\<close>, \<^verbatim>\<open>color_table\<close>, lines 24-47)\<close>

text \<open>
  Modelled from the spec: \<^verbatim>\<open>sf::Color\<close> is declared by SFML, outside the repository. A colour
  is an RGB triple of 8-bit channels; \<^verbatim>\<open>sf::Color(r,g,b)\<close> takes each \<^verbatim>\<open>int\<close> modulo 256.
\<close>

record color =
  col_r :: "8 word"
  col_g :: "8 word"
  col_b :: "8 word"

definition Color :: "int \<Rightarrow> int \<Rightarrow> int \<Rightarrow> color" where
  "Color r0 g0 b0 = \<lparr>col_r = word_of_int r0, col_g = word_of_int g0, col_b = word_of_int b0\<rparr>"

definition Black :: color where
  "Black = Color 0 0 0"

text \<open>
  One channel of \<^verbatim>\<open>interpolate\<close>: \<^verbatim>\<open>int r = color1.r + (color2.r - color1.r) * mid\<close>. The
  channels are promoted to \<^verbatim>\<open>int\<close>, the difference is multiplied by \<^verbatim>\<open>mid\<close> and added to
  the first channel in binary64, and the sum is converted to \<^verbatim>\<open>int\<close>.
\<close>

definition interpolate_channel :: "8 word \<Rightarrow> 8 word \<Rightarrow> real \<Rightarrow> error + int" where
  "interpolate_channel c1 c2 mid =
     double_to_int (dbl_add (of_int (uint c1)) (dbl_mul (of_int (uint c2 - uint c1)) mid))"

definition interpolate :: "color \<Rightarrow> color \<Rightarrow> real \<Rightarrow> error + color" where
  "interpolate color1 color2 mid =
     bindE (interpolate_channel (col_r color1) (col_r color2) mid) (\<lambda>r0.
     bindE (interpolate_channel (col_g color1) (col_g color2) mid) (\<lambda>g0.
     bindE (interpolate_channel (col_b color1) (col_b color2) mid) (\<lambda>b0.
     Inr (Color r0 g0 b0))))"

text \<open>
  The inner loop \<^verbatim>\<open>for (double d = 0; d < 1; d += 0.01) v.push_back(interpolate(*i, *next, d))\<close>.
  Nothing in the source bounds the number of passes, so the loop is a partial function:
  \<open>None\<close> is a loop that does not end.
\<close>

partial_function (option) inner_loop ::
  "color \<Rightarrow> color \<Rightarrow> real \<Rightarrow> color list \<Rightarrow> (error + color list) option" where
  "inner_loop c1 c2 d v =
     (if d < 1
      then (case interpolate c1 c2 d of
              Inl e \<Rightarrow> Some (Inl e)
            | Inr c \<Rightarrow> inner_loop c1 c2 (dbl_add d c001) (v @ [c]))
      else Some (Inr v))"

text \<open>
  The outer loop \<^verbatim>\<open>for (auto i = gradient.begin(); i != gradient.end(); ++i)\<close>; the iterator
  is the index \<open>i\<close>. It starts at 0 and moves by one, so \<^verbatim>\<open>i != gradient.end()\<close> is
  \<open>i < length gradient\<close>.
\<close>

function outer_loop :: "color list \<Rightarrow> nat \<Rightarrow> color list \<Rightarrow> (error + color list) option" where
  "outer_loop gradient i v =
     (if i < length gradient
      then (let nxt = (if i + 1 = length gradient then 0 else i + 1)
            in case inner_loop (gradient ! i) (gradient ! nxt) 0 v of
                 None \<Rightarrow> None
               | Some (Inl e) \<Rightarrow> Some (Inl e)
               | Some (Inr v1) \<Rightarrow> outer_loop gradient (i + 1) v1)
      else Some (Inr v))"
  by pat_completeness auto
termination
  by (relation "measure (\<lambda>(gradient, i, v). length gradient - i)") auto

definition color_table :: "color list \<Rightarrow> (error + color list) option" where
  "color_table gradient = outer_loop gradient 0 []"

text \<open>
  For the proofs: the values that the counter \<^verbatim>\<open>d\<close> of the inner loop takes from \<open>d\<close> on, in
  at most \<open>n\<close> passes, and the colours that one pass of the outer loop appends for the
  anchor of index \<open>k\<close> and its successor (the first anchor after the last).
\<close>

fun d_values :: "nat \<Rightarrow> real \<Rightarrow> real list" where
  "d_values 0 d = []"
| "d_values (Suc n) d = (if d < 1 then d # d_values n (dbl_add d c001) else [])"

definition segment :: "color list \<Rightarrow> nat \<Rightarrow> color list" where
  "segment gradient k =
     map (\<lambda>t. projr (interpolate (gradient ! k) (gradient ! (Suc k mod length gradient)) t))
       (d_values 200 0)"

text \<open>The values of a list lie within \<open>1 / 10 ^ 15\<close> of \<open>m / 100\<close>, \<open>(m + 1) / 100\<close>, and so on.\<close>

fun near_grid :: "nat \<Rightarrow> real list \<Rightarrow> bool" where
  "near_grid m [] = True"
| "near_grid m (t # ts) = (\<bar>t - of_nat m / 100\<bar> \<le> 1 / 10 ^ 15 \<and> near_grid (Suc m) ts)"

text \<open>
  The interpolation as the spec words it: \<open>channel = c1 + (c2 - c1) * t\<close> at
  \<open>t = m / 100\<close>, truncated to an integer. A channel matches when it is the truncation of
  that value; where that value is an integer the channel may also be one less (the binary64
  product can fall just below it).
\<close>

definition spec_channel :: "8 word \<Rightarrow> 8 word \<Rightarrow> nat \<Rightarrow> real" where
  "spec_channel c1 c2 m = of_int (uint c1) + of_int (uint c2 - uint c1) * (of_nat m / 100)"

definition channel_matches :: "8 word \<Rightarrow> 8 word \<Rightarrow> nat \<Rightarrow> 8 word \<Rightarrow> bool" where
  "channel_matches c1 c2 m w =
     (\<lceil>spec_channel c1 c2 m\<rceil> - 1 \<le> uint w \<and> uint w \<le> \<lfloor>spec_channel c1 c2 m\<rfloor>)"

definition color_matches :: "color \<Rightarrow> color \<Rightarrow> nat \<Rightarrow> color \<Rightarrow> bool" where
  "color_matches color1 color2 m c =
     (channel_matches (col_r color1) (col_r color2) m (col_r c)
      \<and> channel_matches (col_g color1) (col_g color2) m (col_g c)
      \<and> channel_matches (col_b color1) (col_b color2) m (col_b c))"

subsection \<open>The colour mapper (\<^verbatim>\<open>palette\<close>, lines 49-59)\<close>

text \<open>
  \<^verbatim>\<open>std::log2\<close> leaves the finite numbers: it is minus infinity at 0 and not a number
  below 0. A value of the smoothing formula is a finite real, an infinity or not a number.
\<close>

datatype xdouble = Finite real | PInf | NInf | NaN

fun log2_x :: "xdouble \<Rightarrow> xdouble" where
  "log2_x (Finite y) = (if y < 0 then NaN else if y = 0 then NInf else Finite (log 2 y))"
| "log2_x PInf = PInf"
| "log2_x NInf = NaN"
| "log2_x NaN = NaN"

text \<open>\<^verbatim>\<open>iter - y\<close>, the \<^verbatim>\<open>int\<close> promoted to \<^verbatim>\<open>double\<close>.\<close>

fun int_minus_x :: "int \<Rightarrow> xdouble \<Rightarrow> xdouble" where
  "int_minus_x k (Finite y) = Finite (of_int k - y)"
| "int_minus_x k PInf = NInf"
| "int_minus_x k NInf = PInf"
| "int_minus_x k NaN = NaN"

text \<open>\<^verbatim>\<open>nu *= 10\<close>.\<close>

fun times10_x :: "xdouble \<Rightarrow> xdouble" where
  "times10_x (Finite y) = Finite (y * 10)"
| "times10_x PInf = PInf"
| "times10_x NInf = NInf"
| "times10_x NaN = NaN"

fun x_to_int :: "xdouble \<Rightarrow> error + int" where
  "x_to_int (Finite y) = double_to_int y"
| "x_to_int PInf = Inl Undefined_conversion"
| "x_to_int NInf = Inl Undefined_conversion"
| "x_to_int NaN = Inl Undefined_conversion"

text \<open>The value of \<^verbatim>\<open>nu\<close> when it is converted: \<^verbatim>\<open>10 * (iter - log2(log2(zn_size)))\<close>.\<close>

definition palette_nu :: "real \<Rightarrow> int \<Rightarrow> xdouble" where
  "palette_nu zn_size iter = times10_x (int_minus_x iter (log2_x (log2_x (Finite zn_size))))"

text \<open>
  \<^verbatim>\<open>int i = (int) nu % gradient.size()\<close>: the cast binds first; the \<^verbatim>\<open>int\<close> is then
  converted to the unsigned 64-bit \<^verbatim>\<open>size_t\<close> of the right operand, and the remainder is
  unsigned.
\<close>

definition palette_index :: "color list \<Rightarrow> real \<Rightarrow> int \<Rightarrow> error + nat" where
  "palette_index gradient zn_size iter =
     bindE (x_to_int (palette_nu zn_size iter)) (\<lambda>k.
       if length gradient = 0 then Inl Division_by_zero
       else Inr (unat (word_of_int k :: 64 word) mod length gradient))"

definition palette :: "color list \<Rightarrow> real \<Rightarrow> int \<Rightarrow> error + color" where
  "palette gradient zn_size iter =
     bindE (palette_index gradient zn_size iter) (\<lambda>i.
       if i < length gradient then Inr (gradient ! i) else Inl Index_out_of_bounds)"

subsection \<open>\<^verbatim>\<open>mpf_class\<close> arithmetic\<close>

text \<open>
  GMP computes a sum, a difference or a product of \<^verbatim>\<open>mpf_class\<close> numbers and rounds it to
  the mantissa of the working precision (the program asks for 100 bits). The rounding
  \<open>rnd\<close> belongs to GMP and is a parameter. A result that is exactly zero is the zero of
  GMP, which has no mantissa. Comparisons and copies are exact.
\<close>

definition mpf_result :: "(real \<Rightarrow> real) \<Rightarrow> real \<Rightarrow> real" where
  "mpf_result rnd y = (if y = 0 then 0 else rnd y)"

definition mpf_add :: "(real \<Rightarrow> real) \<Rightarrow> real \<Rightarrow> real \<Rightarrow> real" where
  "mpf_add rnd a b = mpf_result rnd (a + b)"

definition mpf_sub :: "(real \<Rightarrow> real) \<Rightarrow> real \<Rightarrow> real \<Rightarrow> real" where
  "mpf_sub rnd a b = mpf_result rnd (a - b)"

definition mpf_mul :: "(real \<Rightarrow> real) \<Rightarrow> real \<Rightarrow> real \<Rightarrow> real" where
  "mpf_mul rnd a b = mpf_result rnd (a * b)"


subsection \<open>The reference orbit (\<^verbatim>\<open>deep_zoom_point\<close>, lines 65-91)\<close>

text \<open>
  \<open>get_d\<close> is \<^verbatim>\<open>mpf_class::get_d\<close>, the conversion of a high-precision number to
  \<^verbatim>\<open>double\<close>; it belongs to GMP and is a parameter, as \<open>rnd\<close> is. The loop
  \<^verbatim>\<open>for (int i = 0; i != depth; ++i)\<close> starts at 0 and moves by one, so with a depth that
  is not negative \<^verbatim>\<open>i != depth\<close> is \<open>i < depth\<close>. The result names the \<^verbatim>\<open>return\<close> that
  was taken: the one inside the loop (line 84) or the one after it (line 90).
\<close>

datatype dzp_exit = Bailout | Depth_reached

function dzp_loop ::
  "(real \<Rightarrow> real) \<Rightarrow> (real \<Rightarrow> real) \<Rightarrow> real \<Rightarrow> real \<Rightarrow> nat \<Rightarrow> nat \<Rightarrow> real \<Rightarrow> real
     \<Rightarrow> complex list \<Rightarrow> complex list \<times> dzp_exit" where
  "dzp_loop rnd get_d center_r center_i depth i xn_r xn_i v =
     (if i < depth
      then (let re = mpf_add rnd xn_r xn_r;
                im = mpf_add rnd xn_i xn_i;
                c = Complex (get_d re) (get_d im);
                v1 = v @ [c]
            in if re > 1024 \<or> im > 1024 \<or> re < - 1024 \<or> im < - 1024
               then (v1, Bailout)
               else dzp_loop rnd get_d center_r center_i depth (i + 1)
                      (mpf_add rnd (mpf_sub rnd (mpf_mul rnd xn_r xn_r) (mpf_mul rnd xn_i xn_i))
                         center_r)
                      (mpf_add rnd (mpf_mul rnd re xn_i) center_i) v1)
      else (v, Depth_reached))"
  by pat_completeness auto
termination
  by (relation
      "measure (\<lambda>(rnd, get_d, center_r, center_i, depth, i, xn_r, xn_i, v). depth - i)") auto

definition deep_zoom_point ::
  "(real \<Rightarrow> real) \<Rightarrow> (real \<Rightarrow> real) \<Rightarrow> real \<Rightarrow> real \<Rightarrow> nat \<Rightarrow> complex list" where
  "deep_zoom_point rnd get_d center_r center_i depth =
     fst (dzp_loop rnd get_d center_r center_i depth 0 center_r center_i [])"

definition deep_zoom_exit ::
  "(real \<Rightarrow> real) \<Rightarrow> (real \<Rightarrow> real) \<Rightarrow> real \<Rightarrow> real \<Rightarrow> nat \<Rightarrow> dzp_exit" where
  "deep_zoom_exit rnd get_d center_r center_i depth =
     snd (dzp_loop rnd get_d center_r center_i depth 0 center_r center_i [])"

subsection \<open>The perturbation iterator (\<^verbatim>\<open>pt\<close>, lines 104-118)\<close>

text \<open>
  \<^verbatim>\<open>x[iter]\<close> is \<^verbatim>\<open>std::vector::operator[]\<close>, which does not check its index. A read inside the
  vector gives the element; a read past the end gives whatever the memory holds there, the
  parameter \<open>junk\<close>. The loop records every index it reads, so that reads past the end
  are visible in the result.
\<close>

definition vec_at :: "(nat \<Rightarrow> complex) \<Rightarrow> complex list \<Rightarrow> nat \<Rightarrow> complex" where
  "vec_at junk x i = (if i < length x then x ! i else junk i)"

text \<open>\<^verbatim>\<open>std::norm\<close>: the squared magnitude.\<close>

definition std_norm :: "complex \<Rightarrow> real" where
  "std_norm z = Re z * Re z + Im z * Im z"

record pt_result =
  res_iter :: nat
  res_zn_size :: real
  res_reads :: "nat list"

text \<open>
  The \<^verbatim>\<open>do ... while (zn_size < 256 && iter < max_iter)\<close> loop, entered with the values of
  \<open>dn\<close> and \<open>iter\<close> at the top of a pass. The body runs before the test.
\<close>

function pt_loop ::
  "(nat \<Rightarrow> complex) \<Rightarrow> complex list \<Rightarrow> complex \<Rightarrow> complex \<Rightarrow> nat \<Rightarrow> nat list \<Rightarrow> pt_result" where
  "pt_loop junk x d0 dn iter rd =
     (let max_iter = length x;
          dn1 = dn * (vec_at junk x iter + dn);
          dn2 = dn1 + d0;
          iter1 = iter + 1;
          zn_size = std_norm (vec_at junk x iter1 * 0.5 + dn2);
          rd1 = rd @ [iter, iter1]
      in if zn_size < 256 \<and> iter1 < max_iter
         then pt_loop junk x d0 dn2 iter1 rd1
         else \<lparr>res_iter = iter1, res_zn_size = zn_size, res_reads = rd1\<rparr>)"
  by pat_completeness auto
termination
  by (relation "measure (\<lambda>(junk, x, d0, dn, iter, rd). length x - iter)") auto

text \<open>
  The offset of pixel \<open>(i, j)\<close> from the centre, \<^verbatim>\<open>d0\<close> (lines 99-102). \<open>wsize\<close> is the
  window size \<^verbatim>\<open>size\<close>. With \<^verbatim>\<open>window_radius = 0\<close> the quotient is not a finite number.
\<close>

definition pixel_d0 :: "nat \<times> nat \<Rightarrow> real \<Rightarrow> int \<Rightarrow> int \<Rightarrow> error + complex" where
  "pixel_d0 wsize radius i j =
     (let window_radius = (if fst wsize < snd wsize then fst wsize else snd wsize)
      in if window_radius = 0 then Inl Division_by_zero
         else Inr (Complex (radius * of_int (2 * i - int (fst wsize)) / of_nat window_radius)
                           (- radius * of_int (2 * j - int (snd wsize)) / of_nat window_radius)))"

text \<open>
  \<^verbatim>\<open>pt\<close>: the colour of pixel \<open>(i, j)\<close>. \<^verbatim>\<open>palette\<close> is called before the test
  \<^verbatim>\<open>iter == max_iter\<close>, as in the source.
\<close>

definition pt ::
  "(nat \<Rightarrow> complex) \<Rightarrow> int \<Rightarrow> int \<Rightarrow> complex list \<Rightarrow> nat \<times> nat \<Rightarrow> real \<Rightarrow> color list
     \<Rightarrow> error + color" where
  "pt junk i j x wsize radius gradient =
     bindE (pixel_d0 wsize radius i j) (\<lambda>d0.
       let res = pt_loop junk x d0 d0 0 []
       in bindE (palette gradient (res_zn_size res) (int (res_iter res))) (\<lambda>c0.
            if res_iter res = length x then Inr Black else Inr c0))"

subsection \<open>The frame (\<^verbatim>\<open>update\<close>, lines 128-140)\<close>

text \<open>
  A vertex of the \<^verbatim>\<open>sf::VertexArray\<close>; the array is a list, and a write outside it is an
  error.
\<close>

record vertex =
  position :: "real \<times> real"
  vcolor :: color

definition default_vertex :: vertex where
  "default_vertex = \<lparr>position = (0, 0), vcolor = Color 255 255 255\<rparr>"

primrec for_each :: "('a \<Rightarrow> 's \<Rightarrow> error + 's) \<Rightarrow> 'a list \<Rightarrow> 's \<Rightarrow> error + 's" where
  "for_each body [] s = Inr s"
| "for_each body (a # as) s = bindE (body a s) (for_each body as)"

text \<open>The body of the inner loop (lines 136-137), at pixel \<open>(i, j)\<close>.\<close>

definition update_pixel ::
  "(nat \<Rightarrow> complex) \<Rightarrow> nat \<times> nat \<Rightarrow> complex list \<Rightarrow> real \<Rightarrow> color list \<Rightarrow> nat \<Rightarrow> nat
     \<Rightarrow> vertex list \<Rightarrow> error + vertex list" where
  "update_pixel junk wsize x radius gradient i j vset =
     (let k = i + fst wsize * j
      in if length vset \<le> k then Inl Index_out_of_bounds
         else let vset1 = vset[k := (vset ! k)\<lparr>position := (of_nat i, of_nat j)\<rparr>]
              in bindE (pt junk (int i) (int j) x wsize radius gradient) (\<lambda>c.
                   Inr (vset1[k := (vset1 ! k)\<lparr>vcolor := c\<rparr>])))"

definition update ::
  "(nat \<Rightarrow> complex) \<Rightarrow> vertex list \<Rightarrow> nat \<times> nat \<Rightarrow> complex list \<Rightarrow> real \<Rightarrow> color list
     \<Rightarrow> error + vertex list" where
  "update junk vset wsize x radius gradient =
     for_each (\<lambda>i. for_each (update_pixel junk wsize x radius gradient i) [0..<snd wsize])
       [0..<fst wsize] vset"

subsection \<open>The event handlers (\<^verbatim>\<open>main\<close>, lines 208-220 and 287-299)\<close>

text \<open>\<^verbatim>\<open>std::vector::resize\<close> on the vertex array.\<close>

definition resize :: "vertex list \<Rightarrow> nat \<Rightarrow> vertex list" where
  "resize vset n = take n vset @ replicate (n - length vset) default_vertex"

text \<open>The \<^verbatim>\<open>Resized\<close> event: the array takes the new number of pixels and is redrawn.\<close>

definition on_resized ::
  "(nat \<Rightarrow> complex) \<Rightarrow> vertex list \<Rightarrow> nat \<times> nat \<Rightarrow> complex list \<Rightarrow> real \<Rightarrow> color list
     \<Rightarrow> error + vertex list" where
  "on_resized junk vset wsize x radius gradient =
     (let pixels = fst wsize * snd wsize
      in update junk (resize vset pixels) wsize x radius gradient)"

record view_state =
  vs_center_r :: real
  vs_center_i :: real
  vs_radius :: real

text \<open>
  The offset the \<^verbatim>\<open>MouseButtonPressed\<close> handler adds to the centre (lines 291-292). The mouse
  position is an integer pixel position held in \<^verbatim>\<open>float\<close>s.
\<close>

definition click_offset :: "nat \<times> nat \<Rightarrow> real \<Rightarrow> int \<Rightarrow> int \<Rightarrow> error + complex" where
  "click_offset wsize radius mouse_x mouse_y =
     (if snd wsize = 0 then Inl Division_by_zero
      else Inr (Complex (radius * (2 * of_int mouse_x - of_int (int (fst wsize))) / of_nat (snd wsize))
                        (- radius * (2 * of_int mouse_y - of_int (int (snd wsize))) / of_nat (snd wsize))))"

text \<open>
  The state after a left click (lines 290-293); \<^verbatim>\<open>center_r +=\<close> and \<^verbatim>\<open>center_i +=\<close> are
  additions of \<^verbatim>\<open>mpf_class\<close>.
\<close>

definition on_left_click ::
  "(real \<Rightarrow> real) \<Rightarrow> nat \<times> nat \<Rightarrow> int \<Rightarrow> int \<Rightarrow> view_state \<Rightarrow> error + view_state" where
  "on_left_click rnd wsize mouse_x mouse_y vs =
     bindE (click_offset wsize (vs_radius vs) mouse_x mouse_y) (\<lambda>off.
       Inr \<lparr>vs_center_r = mpf_add rnd (vs_center_r vs) (Re off),
            vs_center_i = mpf_add rnd (vs_center_i vs) (Im off),
            vs_radius = vs_radius vs / 2\<rparr>)"

subsection \<open>The reference orbit as the spec words it\<close>





subsection \<open>The reference orbit as the generator computes it\<close>






subsection \<open>An enclosure of the exact orbit\<close>



section \<open>Properties\<close>

declare pt_loop.simps [simp del]
declare dzp_loop.simps [simp del]

subsection \<open>The perturbation loop\<close>

lemma pt_loop_iter_le:
  "iter < length x \<Longrightarrow> res_iter (pt_loop junk x d0 dn iter rd) \<le> length x"
proof (induction junk x d0 dn iter rd rule: pt_loop.induct)
  case (1 junk x d0 dn iter rd)
  show ?case
    using 1 by (subst pt_loop.simps) (auto simp: Let_def)
qed

lemma pt_loop_iter_gt:
  "iter < res_iter (pt_loop junk x d0 dn iter rd)"
proof (induction junk x d0 dn iter rd rule: pt_loop.induct)
  case (1 junk x d0 dn iter rd)
  show ?case
    using 1 [OF refl refl refl refl refl refl]
    by (subst pt_loop.simps) (auto simp: Let_def dest: Suc_lessD)
qed

lemma pt_loop_exit:
  "\<not> (res_zn_size (pt_loop junk x d0 dn iter rd) < 256
       \<and> res_iter (pt_loop junk x d0 dn iter rd) < length x)"
proof (induction junk x d0 dn iter rd rule: pt_loop.induct)
  case (1 junk x d0 dn iter rd)
  show ?case
    using 1 by (subst (1 2) pt_loop.simps) (auto simp: Let_def)
qed

lemma pt_loop_last_read:
  "last (res_reads (pt_loop junk x d0 dn iter rd)) = res_iter (pt_loop junk x d0 dn iter rd)"
proof (induction junk x d0 dn iter rd rule: pt_loop.induct)
  case (1 junk x d0 dn iter rd)
  show ?case
    using 1 by (subst (1 2) pt_loop.simps) (auto simp: Let_def)
qed

lemma pt_loop_reads_nonempty:
  "res_reads (pt_loop junk x d0 dn iter rd) \<noteq> []"
proof (induction junk x d0 dn iter rd rule: pt_loop.induct)
  case (1 junk x d0 dn iter rd)
  show ?case
    using 1 by (subst pt_loop.simps) (auto simp: Let_def)
qed

lemma pt_loop_reads_past_end:
  assumes "res_iter (pt_loop junk x d0 dn iter rd) = length x"
  shows "length x \<in> set (res_reads (pt_loop junk x d0 dn iter rd))"
  using pt_loop_last_read [of junk x d0 dn iter rd] pt_loop_reads_nonempty [of junk x d0 dn iter rd]
    assms last_in_set by metis

text \<open>
  Claim C1. For every pixel offset \<open>d0\<close> and every orbit that is not empty, the iteration
  count that the loop of \<^verbatim>\<open>pt\<close> returns is at most the length of the orbit, whatever lies
  behind the orbit in memory; and at the exit the squared magnitude has reached 256 or the
  count equals the length of the orbit.
\<close>

theorem pt_iter_le_orbit_length:
  assumes "x \<noteq> []"
  shows "res_iter (pt_loop junk x d0 d0 0 []) \<le> length x
     \<and> (256 \<le> res_zn_size (pt_loop junk x d0 d0 0 [])
          \<or> res_iter (pt_loop junk x d0 d0 0 []) = length x)"
proof -
  from assms have "0 < length x" by simp
  then have le: "res_iter (pt_loop junk x d0 d0 0 []) \<le> length x"
    by (rule pt_loop_iter_le)
  with pt_loop_exit [of junk x d0 d0 0 "[]"] show ?thesis
    by auto
qed

theorem pt_iter_le_orbit_length_witness:
  "[0 :: complex] \<noteq> []
   \<and> res_iter (pt_loop (\<lambda>_. 0) [0] 0 0 0 []) \<le> length [0 :: complex]
   \<and> (256 \<le> res_zn_size (pt_loop (\<lambda>_. 0) [0] 0 0 0 [])
        \<or> res_iter (pt_loop (\<lambda>_. 0) [0] 0 0 0 []) = length [0 :: complex])"
  using pt_iter_le_orbit_length [of "[0]" "\<lambda>_. 0" 0] by simp

text \<open>
  Claim C2 says that every read of an orbit sample uses an index below the length of the
  orbit. The code reads \<^verbatim>\<open>x[iter]\<close> after \<^verbatim>\<open>++iter\<close> and before the test
  \<^verbatim>\<open>iter < max_iter\<close>: with the orbit of depth 1 at the origin and the offset 0 the single
  pass reads index 0 and then index 1, which is the length of the orbit.
\<close>

theorem pt_reads_past_orbit_end:
  "res_reads (pt_loop junk [0] 0 0 0 []) = [0, 1]
   \<and> res_iter (pt_loop junk [0] 0 0 0 []) = 1
   \<and> length [0 :: complex] = 1"
  by (simp add: pt_loop.simps vec_at_def)

text \<open>
  Claim C10. The body of the loop runs before the test, so for every offset and every
  orbit (an empty one too) the iteration count returned is at least 1.
\<close>

theorem pt_iter_at_least_one:
  "1 \<le> res_iter (pt_loop junk x d0 d0 0 [])"
  using pt_loop_iter_gt [of 0 junk x d0 d0 "[]"] by simp

lemma pt_loop_escaped_at_once:
  "pt_loop junk [0, 0, 0] 100 100 0 [] =
     \<lparr>res_iter = 1, res_zn_size = 102010000, res_reads = [0, 1]\<rparr>"
  by (simp add: pt_loop.simps vec_at_def std_norm_def)

subsection \<open>Binary64 rounding\<close>

lemma pow2_powi: "pow2 e = 2 powi e"
  by (simp add: pow2_def power_int_def field_simps)

lemma pow2_pos: "0 < pow2 e"
  by (simp add: pow2_powi)

lemma pow2_mono: "a \<le> b \<Longrightarrow> pow2 a \<le> pow2 b"
  by (simp add: pow2_powi power_int_increasing)

lemma pow2_diff_nat: "pow2 (int k - 52) = 2 ^ k / 2 ^ 52"
  by (simp add: pow2_powi power_int_diff)

lemma norm_exp_le: "x < 2 ^ k \<Longrightarrow> norm_exp n x e \<le> e + int k"
proof (induction n arbitrary: x e k)
  case 0
  then show ?case by simp
next
  case (Suc n)
  show ?case
  proof (cases "2 \<le> x")
    case True
    with Suc.prems have "k \<noteq> 0" by (cases k) auto
    then obtain k' where k: "k = Suc k'" by (cases k) auto
    with Suc.prems have "x / 2 < 2 ^ k'" by simp
    from Suc.IH [OF this, of "e + 1"] True k show ?thesis by simp
  next
    case False
    show ?thesis
    proof (cases "x < 1")
      case True
      then have "x * 2 < 2 ^ 1" by simp
      from Suc.IH [OF this, of "e - 1"] True False show ?thesis by simp
    next
      case False
      with \<open>\<not> 2 \<le> x\<close> show ?thesis by simp
    qed
  qed
qed

lemma round_half_even_error: "\<bar>of_int (round_half_even m) - m\<bar> \<le> 1 / 2"
  unfolding round_half_even_def Let_def by (auto; linarith)

lemma round_half_even_of_int: "round_half_even (of_int z) = z"
  by (simp add: round_half_even_def)

lemma dbl_round_error:
  assumes "\<bar>x\<bar> < 2 ^ k"
  shows "\<bar>dbl_round x - x\<bar> \<le> 2 ^ k / 2 ^ 53"
proof (cases "x = 0")
  case True
  then show ?thesis by (simp add: dbl_round_def)
next
  case False
  define u where "u = pow2 (norm_exp 1100 \<bar>x\<bar> 0 - 52)"
  have upos: "0 < u" by (simp add: u_def pow2_pos)
  have "norm_exp 1100 \<bar>x\<bar> 0 \<le> int k"
    using norm_exp_le [OF assms, of 1100 0] by simp
  then have "u \<le> pow2 (int k - 52)"
    unfolding u_def by (intro pow2_mono) simp
  then have ule: "u \<le> 2 ^ k / 2 ^ 52"
    by (simp only: pow2_diff_nat)
  have "dbl_round x - x = (of_int (round_half_even (x / u)) - x / u) * u"
    using False upos by (simp add: dbl_round_def u_def [symmetric] Let_def field_simps)
  then have "\<bar>dbl_round x - x\<bar> = \<bar>of_int (round_half_even (x / u)) - x / u\<bar> * u"
    using upos by (simp add: abs_mult)
  also have "\<dots> \<le> 1 / 2 * u"
    using upos round_half_even_error [of "x / u"] by (intro mult_right_mono) simp_all
  also have "\<dots> \<le> 1 / 2 * (2 ^ k / 2 ^ 52)"
    using ule by simp
  also have "\<dots> = 2 ^ k / 2 ^ 53" by simp
  finally show ?thesis .
qed

lemma dbl_round_of_int:
  assumes "\<bar>z\<bar> < 2 ^ 52"
  shows "dbl_round (of_int z) = of_int z"
proof (cases "z = 0")
  case True
  then show ?thesis by (simp add: dbl_round_def)
next
  case False
  define E where "E = norm_exp 1100 \<bar>of_int z :: real\<bar> 0"
  have "\<bar>of_int z :: real\<bar> < 2 ^ 52"
    using assms by (metis of_int_abs of_int_less_numeral_power_cancel_iff)
  from norm_exp_le [OF this, of 1100 0] have E: "E \<le> 52" by (simp add: E_def)
  then have u: "pow2 (E - 52) = 1 / 2 ^ nat (52 - E)"
    by (cases "E = 52") (simp_all add: pow2_def)
  have "(of_int z :: real) / pow2 (E - 52) = of_int (z * 2 ^ nat (52 - E))"
    by (simp add: u)
  then have "round_half_even (of_int z / pow2 (E - 52)) = z * 2 ^ nat (52 - E)"
    by (simp only: round_half_even_of_int)
  then show ?thesis
    using False by (simp add: dbl_round_def E_def [symmetric] Let_def u)
qed


subsection \<open>The palette builder\<close>

lemma double_to_int_of_int:
  "\<bar>z\<bar> < 2 ^ 31 \<Longrightarrow> double_to_int (of_int z) = Inr z"
proof -
  assume a: "\<bar>z\<bar> < 2 ^ 31"
  then have "- (2 ^ 31) - 1 < (of_int z :: real)" "(of_int z :: real) < 2 ^ 31"
    by (simp_all add: abs_less_iff of_int_less_numeral_power_cancel_iff
        numeral_power_less_of_int_cancel_iff)
  then show ?thesis by (simp add: double_to_int_def trunc_def)
qed

lemma interpolate_channel_0: "interpolate_channel c1 c2 0 = Inr (uint c1)"
proof -
  have small: "\<bar>uint c1\<bar> < 256"
    using uint_lt2p [of c1] by simp
  then have "dbl_round (of_int (uint c1)) = of_int (uint c1)"
    by (intro dbl_round_of_int) simp
  moreover have "dbl_round 0 = 0" by (simp add: dbl_round_def)
  ultimately show ?thesis
    using small
    by (simp add: interpolate_channel_def dbl_add_def dbl_mul_def double_to_int_of_int
        del: of_int_uint)
qed

lemma interpolate_0: "interpolate color1 color2 0 = Inr color1"
  by (simp add: interpolate_def interpolate_channel_0 bindE_def Color_def)

lemma interpolate_channel_defined:
  assumes "0 \<le> mid" and "mid \<le> 1"
  shows "\<exists>k. interpolate_channel c1 c2 mid = Inr k"
proof -
  let ?a = "of_int (uint c1) :: real"
  let ?d = "of_int (uint c2 - uint c1) :: real"
  have c1: "0 \<le> uint c1" "uint c1 < 256"
    using uint_lt2p [of c1] by simp_all
  have c2: "0 \<le> uint c2" "uint c2 < 256"
    using uint_lt2p [of c2] by simp_all
  have "?a \<le> of_int 255"
    using c1 by (intro of_int_le_iff [THEN iffD2]) simp
  then have a: "0 \<le> ?a" "?a \<le> 255"
    using c1 by (simp_all del: of_int_uint)
  have "\<bar>uint c2 - uint c1\<bar> \<le> 255"
    using c1(2) c2(2) uint_ge_0 [of c1] uint_ge_0 [of c2] by linarith
  then have d: "\<bar>?d\<bar> \<le> 255"
    by (metis of_int_abs of_int_le_numeral_iff)
  have "\<bar>?d * mid\<bar> \<le> 255 * 1"
    unfolding abs_mult using d assms by (intro mult_mono) simp_all
  then have p: "\<bar>?d * mid\<bar> \<le> 255" by simp
  then have "\<bar>?d * mid\<bar> < 2 ^ 8" by simp
  from dbl_round_error [OF this] have "\<bar>dbl_mul ?d mid - ?d * mid\<bar> \<le> 1"
    by (simp add: dbl_mul_def)
  with p have m: "\<bar>dbl_mul ?d mid\<bar> \<le> 256" by linarith
  with a have s: "\<bar>?a + dbl_mul ?d mid\<bar> \<le> 511" by linarith
  then have "\<bar>?a + dbl_mul ?d mid\<bar> < 2 ^ 9" by simp
  from dbl_round_error [OF this] have "\<bar>dbl_add ?a (dbl_mul ?d mid) - (?a + dbl_mul ?d mid)\<bar> \<le> 1"
    by (simp add: dbl_add_def)
  with s have "\<bar>dbl_add ?a (dbl_mul ?d mid)\<bar> \<le> 512" by linarith
  then show ?thesis
    by (simp add: interpolate_channel_def double_to_int_def abs_le_iff)
qed

lemma interpolate_defined:
  assumes "0 \<le> mid" and "mid \<le> 1"
  shows "\<exists>c. interpolate color1 color2 mid = Inr c"
proof -
  obtain r0 g0 b0 where
    "interpolate_channel (col_r color1) (col_r color2) mid = Inr r0"
    "interpolate_channel (col_g color1) (col_g color2) mid = Inr g0"
    "interpolate_channel (col_b color1) (col_b color2) mid = Inr b0"
    using interpolate_channel_defined [OF assms] by metis
  then show ?thesis by (simp add: interpolate_def bindE_def)
qed

lemma norm_exp_numeral:
  "norm_exp (numeral k) x e =
     (if 2 \<le> x then norm_exp (pred_numeral k) (x / 2) (e + 1)
      else if x < 1 then norm_exp (pred_numeral k) (x * 2) (e - 1)
      else e)"
  by (simp add: numeral_eq_Suc)

lemma d_values_numeral:
  "d_values (numeral k) d =
     (if d < 1 then d # d_values (pred_numeral k) (dbl_add d c001) else [])"
  by (simp add: numeral_eq_Suc)

lemma c001_value: "c001 = 5764607523034235 / 576460752303423488"
  unfolding c001_def
  by (simp add: dbl_round_def round_half_even_def pow2_def Let_def norm_exp_numeral)

lemma d_values_200:
  "length (d_values 200 0) = 100 \<and> list_all (\<lambda>t. 0 \<le> t) (d_values 200 0)"
  by (simp add: d_values_numeral norm_exp_numeral c001_value dbl_add_def dbl_round_def
      round_half_even_def pow2_def Let_def)

lemma d_values_200_hd: "d_values 200 0 ! 0 = 0"
  by (simp add: d_values_numeral)

lemma d_values_lt_1: "t \<in> set (d_values n d) \<Longrightarrow> t < 1"
  by (induction n arbitrary: d) (auto split: if_splits)

lemma inner_loop_d_values:
  "length (d_values n d) < n \<Longrightarrow> \<forall>t\<in>set (d_values n d). 0 \<le> t \<Longrightarrow>
   inner_loop c1 c2 d v =
     Some (Inr (v @ map (\<lambda>t. projr (interpolate c1 c2 t)) (d_values n d)))"
proof (induction n arbitrary: d v)
  case 0
  then show ?case by simp
next
  case (Suc n)
  show ?case
  proof (cases "d < 1")
    case True
    with Suc.prems have d: "0 \<le> d" "d \<le> 1" by simp_all
    then obtain c where c: "interpolate c1 c2 d = Inr c"
      using interpolate_defined by blast
    have "inner_loop c1 c2 d v = inner_loop c1 c2 (dbl_add d c001) (v @ [c])"
      using True c by (subst inner_loop.simps) simp
    also have "\<dots> = Some (Inr ((v @ [c]) @
        map (\<lambda>t. projr (interpolate c1 c2 t)) (d_values n (dbl_add d c001))))"
      using Suc.prems True by (intro Suc.IH) simp_all
    finally show ?thesis using True c by simp
  next
    case False
    then show ?thesis by (subst inner_loop.simps) simp
  qed
qed

lemma inner_loop_segment:
  "inner_loop (gradient ! k) (gradient ! (Suc k mod length gradient)) 0 v =
     Some (Inr (v @ segment gradient k))"
  unfolding segment_def using d_values_200
  by (intro inner_loop_d_values) (simp_all add: list_all_iff)

declare outer_loop.simps [simp del]

lemma outer_loop_segments:
  "i \<le> length gradient \<Longrightarrow>
   outer_loop gradient i v = Some (Inr (v @ concat (map (segment gradient) [i..<length gradient])))"
proof (induction "length gradient - i" arbitrary: i v)
  case 0
  then show ?case by (subst outer_loop.simps) simp
next
  case (Suc n)
  then have lt: "i < length gradient" by simp
  then have nxt: "(if i + 1 = length gradient then 0 else i + 1) = Suc i mod length gradient"
    by (auto simp: mod_Suc)
  have "outer_loop gradient i v = outer_loop gradient (i + 1) (v @ segment gradient i)"
    using lt by (subst outer_loop.simps) (simp add: Let_def nxt inner_loop_segment del: One_nat_def)
  also have "\<dots> = Some (Inr ((v @ segment gradient i) @
        concat (map (segment gradient) [i + 1..<length gradient])))"
    using Suc.hyps(2) lt by (intro Suc.hyps(1)) simp_all
  finally show ?case using lt by (simp add: upt_conv_Cons)
qed

lemma length_segment: "length (segment gradient k) = 100"
  using d_values_200 by (simp add: segment_def)

lemma segment_0: "segment gradient k ! 0 = gradient ! k"
proof -
  have "0 < length (d_values 200 0)" using d_values_200 by simp
  then show ?thesis
    by (simp add: segment_def d_values_200_hd interpolate_0)
qed

lemma length_concat_uniform:
  "\<forall>xs\<in>set xss. length xs = c \<Longrightarrow> length (concat xss) = c * length xss"
  by (induction xss) simp_all

lemma nth_concat_uniform:
  "\<forall>xs\<in>set xss. length xs = c \<Longrightarrow> k < length xss \<Longrightarrow> m < c \<Longrightarrow>
   concat xss ! (c * k + m) = xss ! k ! m"
proof (induction xss arbitrary: k)
  case Nil
  then show ?case by simp
next
  case (Cons xs xss)
  show ?case
  proof (cases k)
    case 0
    with Cons.prems show ?thesis by (simp add: nth_append)
  next
    case (Suc k')
    with Cons.prems have "concat xss ! (c * k' + m) = xss ! k' ! m"
      by (intro Cons.IH) simp_all
    with Cons.prems Suc show ?thesis
      by (simp add: nth_append add.assoc)
  qed
qed

lemma color_table_segments:
  "color_table gradient = Some (Inr (concat (map (segment gradient) [0..<length gradient])))"
  using outer_loop_segments [of 0 gradient "[]"] by (simp add: color_table_def)

lemma segment_nth:
  assumes "m < 100"
  shows "interpolate (gradient ! k) (gradient ! (Suc k mod length gradient)) (d_values 200 0 ! m) =
     Inr (segment gradient k ! m)"
proof -
  let ?t = "d_values 200 0 ! m"
  from assms d_values_200 have m: "m < length (d_values 200 0)" by simp
  then have mem: "?t \<in> set (d_values 200 0)" by simp
  then have "0 \<le> ?t" using d_values_200 by (simp add: list_all_iff)
  moreover have "?t \<le> 1" using d_values_lt_1 [OF mem] by simp
  ultimately obtain c where
    "interpolate (gradient ! k) (gradient ! (Suc k mod length gradient)) ?t = Inr c"
    using interpolate_defined by blast
  then show ?thesis using m by (simp add: segment_def)
qed

lemma near_grid_nth:
  "near_grid m ts \<Longrightarrow> i < length ts \<Longrightarrow> \<bar>ts ! i - of_nat (m + i) / 100\<bar> \<le> 1 / 10 ^ 15"
proof (induction ts arbitrary: m i)
  case Nil
  then show ?case by simp
next
  case (Cons t ts)
  show ?case
  proof (cases i)
    case 0
    with Cons.prems show ?thesis by simp
  next
    case (Suc i')
    with Cons.prems have "\<bar>ts ! i' - of_nat (Suc m + i') / 100\<bar> \<le> 1 / 10 ^ 15"
      by (intro Cons.IH) simp_all
    with Suc show ?thesis by simp
  qed
qed

lemma d_values_200_near_grid: "near_grid 0 (d_values 200 0)"
  by (simp add: d_values_numeral norm_exp_numeral c001_value dbl_add_def dbl_round_def
      round_half_even_def pow2_def Let_def)

lemma trunc_near_grid:
  fixes y :: real and n :: int
  assumes n: "0 \<le> n" and y: "\<bar>y - of_int n / 100\<bar> \<le> 1 / 1000"
  shows "\<lceil>(of_int n :: real) / 100\<rceil> - 1 \<le> trunc y \<and> trunc y \<le> \<lfloor>(of_int n :: real) / 100\<rfloor>"
proof -
  define q where "q = n div 100"
  define r where "r = n mod 100"
  have r: "0 \<le> r" "r \<le> 99" and q: "0 \<le> q" and nqr: "n = 100 * q + r"
    using n by (simp_all add: q_def r_def pos_imp_zdiv_nonneg_iff)
  have x: "(of_int n :: real) / 100 = of_int q + of_int r / 100"
    by (simp add: nqr)
  have rr: "0 \<le> (of_int r :: real)" "(of_int r :: real) \<le> 99"
    using r by simp_all
  have fl: "\<lfloor>(of_int n :: real) / 100\<rfloor> = q"
    unfolding x using rr by (intro floor_unique) simp_all
  have ylo: "of_int q + of_int r / 100 - 1 / 1000 \<le> y"
    and yhi: "y \<le> of_int q + of_int r / 100 + 1 / 1000"
    using y unfolding x by linarith+
  have up: "trunc y \<le> q"
  proof (cases "0 \<le> y")
    case True
    have "y < of_int q + 1" using yhi rr by simp
    then show ?thesis using True by (simp add: trunc_def floor_le_iff)
  next
    case False
    then have "\<lceil>y\<rceil> \<le> 0" by (simp add: ceiling_le_iff)
    with q have "\<lceil>y\<rceil> \<le> q" by linarith
    with False show ?thesis by (simp add: trunc_def)
  qed
  have low: "\<lceil>(of_int n :: real) / 100\<rceil> - 1 \<le> trunc y"
  proof (cases "r = 0")
    case True
    then have ce: "\<lceil>(of_int n :: real) / 100\<rceil> = q" by (simp add: x)
    have gt: "of_int q - 1 < y" using ylo True by simp
    show ?thesis
    proof (cases "0 \<le> y")
      case True
      have "of_int (q - 1) \<le> y" using gt by simp
      then have "q - 1 \<le> \<lfloor>y\<rfloor>" by (simp only: le_floor_iff)
      with True show ?thesis by (simp add: trunc_def ce)
    next
      case False
      have "of_int (q - 1) < y" using gt by simp
      then have "q - 1 < \<lceil>y\<rceil>" by (simp only: less_ceiling_iff)
      with False show ?thesis by (simp add: trunc_def ce)
    qed
  next
    case False
    with r have r1: "1 \<le> r" by simp
    then have rr1: "1 \<le> (of_int r :: real)" by simp
    have ce: "\<lceil>(of_int n :: real) / 100\<rceil> = q + 1"
      unfolding x using rr rr1 by (intro ceiling_unique) simp_all
    have "of_int q \<le> y" using ylo rr1 by simp
    moreover from this q have "0 \<le> y" by (smt (verit) of_int_nonneg)
    ultimately show ?thesis by (simp add: trunc_def ce le_floor_iff)
  qed
  from up low show ?thesis by (simp add: fl)
qed

lemma trunc_gt_minus_one: "- 1 < y \<Longrightarrow> 0 \<le> trunc y"
  by (simp add: trunc_def less_ceiling_iff)

lemma interpolate_channel_matches:
  assumes t: "0 \<le> t" "t \<le> 1" and near: "\<bar>t - of_nat m / 100\<bar> \<le> 1 / 10 ^ 15" and m: "m < 100"
  shows "\<exists>v. interpolate_channel c1 c2 t = Inr v \<and> 0 \<le> v \<and> v \<le> 255
     \<and> \<lceil>spec_channel c1 c2 m\<rceil> - 1 \<le> v \<and> v \<le> \<lfloor>spec_channel c1 c2 m\<rfloor>"
proof -
  let ?a = "of_int (uint c1) :: real"
  let ?d = "of_int (uint c2 - uint c1) :: real"
  define n where "n = uint c1 * (100 - int m) + uint c2 * int m"
  have c1: "0 \<le> uint c1" "uint c1 \<le> 255"
    using uint_lt2p [of c1] by simp_all
  have c2: "0 \<le> uint c2" "uint c2 \<le> 255"
    using uint_lt2p [of c2] by simp_all
  have n0: "0 \<le> n"
    unfolding n_def using c1(1) c2(1) m by (intro add_nonneg_nonneg mult_nonneg_nonneg) simp_all
  have "uint c1 * (100 - int m) \<le> 255 * (100 - int m)"
    using c1(2) m by (intro mult_right_mono) simp_all
  moreover have "uint c2 * int m \<le> 255 * int m"
    using c2(2) by (intro mult_right_mono) simp_all
  ultimately have "uint c1 * (100 - int m) + uint c2 * int m \<le> 255 * (100 - int m) + 255 * int m"
    by (rule add_mono)
  then have n1: "n \<le> 25500" unfolding n_def by simp
  have x: "spec_channel c1 c2 m = of_int n / 100"
    by (simp add: spec_channel_def n_def field_simps del: of_int_uint)
  have "?a \<le> of_int 255"
    using c1 by (intro of_int_le_iff [THEN iffD2]) simp
  then have a: "0 \<le> ?a" "?a \<le> 255"
    using c1 by (simp_all del: of_int_uint)
  have "\<bar>uint c2 - uint c1\<bar> \<le> 255"
    using c1 c2 by linarith
  then have d: "\<bar>?d\<bar> \<le> 255"
    by (metis of_int_abs of_int_le_numeral_iff)
  have "\<bar>?d * t\<bar> \<le> 255 * 1"
    unfolding abs_mult using d t by (intro mult_mono) simp_all
  then have p: "\<bar>?d * t\<bar> \<le> 255" by simp
  then have "\<bar>?d * t\<bar> < 2 ^ 8" by simp
  from dbl_round_error [OF this] have "\<bar>dbl_mul ?d t - ?d * t\<bar> \<le> 2 ^ 8 / 2 ^ 53"
    by (simp add: dbl_mul_def)
  also have "\<dots> \<le> 1 / 10000000000000" by simp
  finally have e1: "\<bar>dbl_mul ?d t - ?d * t\<bar> \<le> 1 / 10000000000000" .
  with p have "\<bar>dbl_mul ?d t\<bar> \<le> 256" by linarith
  with a have s: "\<bar>?a + dbl_mul ?d t\<bar> \<le> 511" by linarith
  then have "\<bar>?a + dbl_mul ?d t\<bar> < 2 ^ 9" by simp
  from dbl_round_error [OF this]
  have "\<bar>dbl_add ?a (dbl_mul ?d t) - (?a + dbl_mul ?d t)\<bar> \<le> 2 ^ 9 / 2 ^ 53"
    by (simp add: dbl_add_def)
  also have "\<dots> \<le> 1 / 10000000000000" by simp
  finally have e2: "\<bar>dbl_add ?a (dbl_mul ?d t) - (?a + dbl_mul ?d t)\<bar> \<le> 1 / 10000000000000" .
  have "\<bar>?d * t - ?d * (of_nat m / 100)\<bar> = \<bar>?d\<bar> * \<bar>t - of_nat m / 100\<bar>"
    by (simp only: abs_mult [symmetric] right_diff_distrib)
  also have "\<dots> \<le> 255 * (1 / 10 ^ 15)"
    using d near by (intro mult_mono) simp_all
  also have "\<dots> \<le> 3 / 10000000000000" by simp
  finally have e3: "\<bar>?d * t - ?d * (of_nat m / 100)\<bar> \<le> 3 / 10000000000000" .
  let ?y = "dbl_add ?a (dbl_mul ?d t)"
  have xr: "of_int n / 100 = ?a + ?d * (of_nat m / 100)"
    using x by (simp only: spec_channel_def)
  have near_x: "\<bar>?y - of_int n / 100\<bar> \<le> 1 / 1000"
    unfolding xr using e1 e2 e3 by linarith
  from trunc_near_grid [OF n0 near_x]
  have b: "\<lceil>spec_channel c1 c2 m\<rceil> - 1 \<le> trunc ?y" "trunc ?y \<le> \<lfloor>spec_channel c1 c2 m\<rfloor>"
    by (simp_all add: x)
  have "(of_int n :: real) / 100 \<le> 255"
    using n1 by simp
  then have "(of_int n :: real) / 100 < of_int 255 + 1"
    by simp
  then have fl255: "\<lfloor>(of_int n :: real) / 100\<rfloor> \<le> 255"
    by (simp only: floor_le_iff)
  have hi: "trunc ?y \<le> 255"
    using b(2) fl255 unfolding x by (rule order_trans)
  have "0 \<le> (of_int n :: real) / 100" using n0 by simp
  with near_x have "- 1 < ?y" by linarith
  then have lo: "0 \<le> trunc ?y" by (rule trunc_gt_minus_one)
  have "\<bar>?y\<bar> \<le> 512" using e2 s by linarith
  then have "interpolate_channel c1 c2 t = Inr (trunc ?y)"
    by (simp add: interpolate_channel_def double_to_int_def abs_le_iff del: of_int_uint of_int_diff)
  with b lo hi show ?thesis by blast
qed

lemma uint_word_of_int_8: "0 \<le> v \<Longrightarrow> v \<le> 255 \<Longrightarrow> uint (word_of_int v :: 8 word) = v"
  by (simp add: uint_word_of_int take_bit_eq_mod)

lemma interpolate_matches:
  assumes t: "0 \<le> t" "t \<le> 1" and near: "\<bar>t - of_nat m / 100\<bar> \<le> 1 / 10 ^ 15" and m: "m < 100"
  shows "\<exists>c. interpolate color1 color2 t = Inr c \<and> color_matches color1 color2 m c"
proof -
  note ch = interpolate_channel_matches [OF t near m]
  obtain r0 where r0: "interpolate_channel (col_r color1) (col_r color2) t = Inr r0"
    "0 \<le> r0" "r0 \<le> 255"
    "\<lceil>spec_channel (col_r color1) (col_r color2) m\<rceil> - 1 \<le> r0"
    "r0 \<le> \<lfloor>spec_channel (col_r color1) (col_r color2) m\<rfloor>"
    using ch [of "col_r color1" "col_r color2"] by blast
  obtain g0 where g0: "interpolate_channel (col_g color1) (col_g color2) t = Inr g0"
    "0 \<le> g0" "g0 \<le> 255"
    "\<lceil>spec_channel (col_g color1) (col_g color2) m\<rceil> - 1 \<le> g0"
    "g0 \<le> \<lfloor>spec_channel (col_g color1) (col_g color2) m\<rfloor>"
    using ch [of "col_g color1" "col_g color2"] by blast
  obtain b0 where b0: "interpolate_channel (col_b color1) (col_b color2) t = Inr b0"
    "0 \<le> b0" "b0 \<le> 255"
    "\<lceil>spec_channel (col_b color1) (col_b color2) m\<rceil> - 1 \<le> b0"
    "b0 \<le> \<lfloor>spec_channel (col_b color1) (col_b color2) m\<rfloor>"
    using ch [of "col_b color1" "col_b color2"] by blast
  have "interpolate color1 color2 t = Inr (Color r0 g0 b0)"
    by (simp add: interpolate_def bindE_def r0(1) g0(1) b0(1))
  moreover have "color_matches color1 color2 m (Color r0 g0 b0)"
    using r0 g0 b0
    by (simp add: color_matches_def channel_matches_def Color_def uint_word_of_int_8)
  ultimately show ?thesis by blast
qed

lemma segment_matches:
  assumes "m < 100"
  shows "color_matches (gradient ! k) (gradient ! (Suc k mod length gradient)) m
     (segment gradient k ! m)"
proof -
  let ?t = "d_values 200 0 ! m"
  from assms d_values_200 have len: "m < length (d_values 200 0)" by simp
  then have mem: "?t \<in> set (d_values 200 0)" by simp
  then have t0: "0 \<le> ?t" using d_values_200 by (simp add: list_all_iff)
  have t1: "?t \<le> 1" using d_values_lt_1 [OF mem] by simp
  have near: "\<bar>?t - of_nat m / 100\<bar> \<le> 1 / 10 ^ 15"
    using near_grid_nth [OF d_values_200_near_grid len] by simp
  from interpolate_matches [OF t0 t1 near assms]
  obtain c where "interpolate (gradient ! k) (gradient ! (Suc k mod length gradient)) ?t = Inr c"
    and "color_matches (gradient ! k) (gradient ! (Suc k mod length gradient)) m c"
    by blast
  then show ?thesis using len by (simp add: segment_def)
qed

lemma color_eqI:
  "col_r c = col_r c' \<Longrightarrow> col_g c = col_g c' \<Longrightarrow> col_b c = col_b c' \<Longrightarrow> c = (c' :: color)"
  by (cases c, cases c') simp

lemma channel_matches_half:
  "channel_matches 0 255 50 w \<Longrightarrow> w = 127"
  "channel_matches 255 0 50 w \<Longrightarrow> w = 127"
proof -
  have u: "uint w = 127 \<Longrightarrow> w = 127"
    by (metis uint_numeral word_of_int_uint word_of_int_numeral)
  have f1: "\<lceil>255 * (50 / 100 :: real)\<rceil> = 128" "\<lfloor>255 * (50 / 100 :: real)\<rfloor> = 127"
    by (simp_all add: ceiling_unique floor_unique)
  have f2: "\<lceil>255 + - 255 * (50 / 100 :: real)\<rceil> = 128" "\<lfloor>255 + - 255 * (50 / 100 :: real)\<rfloor> = 127"
    by (simp_all add: ceiling_unique floor_unique)
  show "channel_matches 0 255 50 w \<Longrightarrow> w = 127"
    using f1 by (intro u) (simp add: channel_matches_def spec_channel_def)
  show "channel_matches 255 0 50 w \<Longrightarrow> w = 127"
    using f2 by (intro u) (simp add: channel_matches_def spec_channel_def)
qed

text \<open>
  Claim C9. For every anchor list (those of length at least 2 among them) \<^verbatim>\<open>color_table\<close>
  ends and returns a palette \<open>p\<close> of \<open>100 * length gradient\<close> colours. The inner loop makes
  exactly 100 passes in binary64 arithmetic; its counter starts at 0 and at pass \<open>m\<close> it is
  within \<open>1 / 10 ^ 15\<close> of \<open>m / 100\<close>. The colour of index \<open>100 * k + m\<close> is the
  interpolation between anchor \<open>k\<close> and its successor (the first anchor after the last) at
  that parameter: each channel is \<open>c1 + (c2 - c1) * m / 100\<close> truncated to an integer, or
  one less where that value is an integer. The colour at parameter 0 is the anchor \<open>k\<close>
  itself, channel for channel.
\<close>

theorem color_table_length_and_anchors:
  "\<exists>p. color_table gradient = Some (Inr p)
     \<and> length p = 100 * length gradient
     \<and> length (d_values 200 0) = 100 \<and> d_values 200 0 ! 0 = 0
     \<and> (\<forall>k<length gradient. \<forall>m<100.
          interpolate (gradient ! k) (gradient ! (Suc k mod length gradient)) (d_values 200 0 ! m) =
            Inr (p ! (100 * k + m))
          \<and> \<bar>d_values 200 0 ! m - of_nat m / 100\<bar> \<le> 1 / 10 ^ 15
          \<and> color_matches (gradient ! k) (gradient ! (Suc k mod length gradient)) m
                (p ! (100 * k + m)))
     \<and> (\<forall>k<length gradient. p ! (100 * k) = gradient ! k)"
proof -
  let ?xss = "map (segment gradient) [0..<length gradient]"
  let ?p = "concat ?xss"
  have uni: "\<forall>xs\<in>set ?xss. length xs = 100"
    by (auto simp: length_segment)
  have len: "length ?p = 100 * length gradient"
    using length_concat_uniform [OF uni] by simp
  have dlen: "length (d_values 200 0) = 100" using d_values_200 by simp
  have nth: "?p ! (100 * k + m) = segment gradient k ! m"
    if "k < length gradient" "m < 100" for k m
    using nth_concat_uniform [OF uni, of k m] that by simp
  have seg: "interpolate (gradient ! k) (gradient ! (Suc k mod length gradient)) (d_values 200 0 ! m) =
      Inr (?p ! (100 * k + m))
      \<and> \<bar>d_values 200 0 ! m - of_nat m / 100\<bar> \<le> 1 / 10 ^ 15
      \<and> color_matches (gradient ! k) (gradient ! (Suc k mod length gradient)) m (?p ! (100 * k + m))"
    if "k < length gradient" "m < 100" for k m
    using that near_grid_nth [OF d_values_200_near_grid, of m] dlen
    by (simp add: nth segment_nth segment_matches)
  have anchor: "?p ! (100 * k) = gradient ! k" if "k < length gradient" for k
    using nth [OF that, of 0] by (simp add: segment_0)
  from color_table_segments [of gradient] len seg anchor d_values_200_hd dlen
  show ?thesis by blast
qed

theorem color_table_length_and_anchors_witness:
  "\<exists>p. color_table [Black, Color 255 255 255] = Some (Inr p)
     \<and> length p = 200 \<and> p ! 0 = Black \<and> p ! 50 = Color 127 127 127
     \<and> p ! 100 = Color 255 255 255 \<and> p ! 150 = Color 127 127 127"
proof -
  let ?g = "[Black, Color 255 255 255]"
  from color_table_length_and_anchors [of ?g]
  obtain p where p: "color_table ?g = Some (Inr p)"
    "length p = 100 * length ?g"
    "\<forall>k<length ?g. \<forall>m<100.
       color_matches (?g ! k) (?g ! (Suc k mod length ?g)) m (p ! (100 * k + m))"
    "\<forall>k<length ?g. p ! (100 * k) = ?g ! k"
    by blast
  from p(4) [rule_format, of 0] p(4) [rule_format, of 1]
  have a: "p ! 0 = Black" "p ! 100 = Color 255 255 255"
    by simp_all
  from p(3) [rule_format, of 0 50] have "color_matches Black (Color 255 255 255) 50 (p ! 50)"
    by simp
  then have m1: "p ! 50 = Color 127 127 127"
    by (intro color_eqI) (simp_all add: color_matches_def Black_def Color_def channel_matches_half)
  from p(3) [rule_format, of 1 50] have "color_matches (Color 255 255 255) Black 50 (p ! 150)"
    by simp
  then have m2: "p ! 150 = Color 127 127 127"
    by (intro color_eqI) (simp_all add: color_matches_def Black_def Color_def channel_matches_half)
  from p(1,2) a m1 m2 show ?thesis by simp
qed

subsection \<open>The colour mapper\<close>


lemma palette_nu_finite:
  assumes "1 < zn_size"
  shows "palette_nu zn_size iter = Finite (10 * (of_int iter - log 2 (log 2 zn_size)))"
proof -
  from assms have pos: "0 < log 2 zn_size"
    by simp
  then have "\<not> log 2 zn_size < 0" and "log 2 zn_size \<noteq> 0"
    by linarith+
  with assms show ?thesis by (simp add: palette_nu_def)
qed

lemma palette_nu_not_finite:
  assumes "zn_size \<le> 1"
  shows "palette_nu zn_size iter = NaN \<or> palette_nu zn_size iter = PInf"
proof -
  consider "zn_size < 0" | "zn_size = 0" | "0 < zn_size" "zn_size < 1" | "zn_size = 1"
    using assms by linarith
  then show ?thesis
  proof cases
    case 3
    then have "log 2 zn_size < 0" by simp
    with 3 show ?thesis by (simp add: palette_nu_def)
  qed (simp_all add: palette_nu_def)
qed

lemma log2_256: "log 2 256 = 8"
  using log_pow_cancel [of 2 8] by simp

lemma log2_8: "log 2 8 = 3"
  using log_pow_cancel [of 2 3] by simp

text \<open>
  Claim C4 says that the colour mapper guards the domain of the logarithm for a squared
  magnitude of at most 1. \<^verbatim>\<open>palette\<close> has no such test: at 0 the smoothed value is not a
  number, at 1 it is infinite, and the conversion to \<^verbatim>\<open>int\<close> that follows is undefined.
\<close>

theorem palette_unguarded_counterexample:
  "palette_nu 0 5 = NaN \<and> palette [Black] 0 5 = Inl Undefined_conversion
   \<and> palette_nu 1 5 = PInf \<and> palette [Black] 1 5 = Inl Undefined_conversion"
  by (simp add: palette_nu_def palette_def palette_index_def bindE_def)

text \<open>
  Claim C4, amended. For every squared magnitude of at most 1 the smoothed value of
  \<^verbatim>\<open>palette\<close> is not a number or infinite, and \<^verbatim>\<open>palette\<close> yields no colour: the conversion
  to \<^verbatim>\<open>int\<close> is undefined. For every squared magnitude above 1 the smoothed value is the
  finite number \<open>10 * (iter - log\<^sub>2 (log\<^sub>2 zn_size))\<close>.
\<close>

theorem palette_domain:
  "(zn_size \<le> 1 \<longrightarrow>
      (palette_nu zn_size iter = NaN \<or> palette_nu zn_size iter = PInf)
      \<and> palette gradient zn_size iter = Inl Undefined_conversion)
   \<and> (1 < zn_size \<longrightarrow>
      palette_nu zn_size iter = Finite (10 * (of_int iter - log 2 (log 2 zn_size))))"
  using palette_nu_not_finite [of zn_size iter] palette_nu_finite [of zn_size iter]
  by (auto simp: palette_def palette_index_def bindE_def)

theorem palette_domain_witness:
  "((1/2 :: real) \<le> 1 \<and>
      (palette_nu (1/2) 3 = NaN \<or> palette_nu (1/2) 3 = PInf)
      \<and> palette [Black] (1/2) 3 = Inl Undefined_conversion)
   \<and> ((1 :: real) < 256 \<and> palette_nu 256 1 = Finite (- 20))"
  using palette_domain [of "1/2" 3 "[Black]"] palette_domain [of 256 1 "[Black]"]
  by (simp add: log2_256 log2_8)




lemma palette_index_negative_example:
  "palette_index (replicate 600 c) 256 1 = Inr 596"
  by (simp add: palette_index_def palette_nu_def log2_256 log2_8 double_to_int_def trunc_def
      bindE_def)

text \<open>
  An escaped pixel, one whose count is below the length of the orbit, leaves the loop with
  a squared magnitude of at least 256.
\<close>

lemma pt_loop_escaped_zn_size:
  assumes "res_iter (pt_loop junk x d0 dn iter rd) < length x"
  shows "256 \<le> res_zn_size (pt_loop junk x d0 dn iter rd)"
  using pt_loop_exit [of junk x d0 dn iter rd] assms by simp

subsection \<open>The reference orbit\<close>






lemma mpf_result_0: "mpf_result rnd 0 = 0"
  by (simp add: mpf_result_def)





subsection \<open>The orbit of the centre \<open>-15/8\<close>\<close>
























lemma dzp_loop_zero:
  "dzp_loop rnd get_d 0 0 depth i 0 0 v =
     (v @ replicate (depth - i) (Complex (get_d 0) (get_d 0)), Depth_reached)"
proof (induction "depth - i" arbitrary: i v)
  case 0
  then show ?case by (subst dzp_loop.simps) simp
next
  case (Suc n)
  then have lt: "i < depth" and n: "n = depth - (i + 1)" by simp_all
  have "depth - i = Suc (depth - (i + 1))" using lt by simp
  then show ?case
    using lt Suc.hyps(1) [OF n]
    by (subst dzp_loop.simps)
       (simp add: replicate_app_Cons_same mpf_add_def mpf_sub_def mpf_mul_def mpf_result_0)
qed

text \<open>
  A centre far outside the set: the orbit of \<open>(2, 2)\<close> ends with its fourth sample, the
  first beyond 1024.
\<close>

lemma deep_zoom_point_far_outside:
  "deep_zoom_point (\<lambda>y. y) (\<lambda>y. y) 2 2 1000 =
     [Complex 4 4, Complex 4 20, Complex (- 188) 84, Complex 14148 (- 15788)]
   \<and> deep_zoom_exit (\<lambda>y. y) (\<lambda>y. y) 2 2 1000 = Bailout"
  by (simp add: deep_zoom_point_def deep_zoom_exit_def dzp_loop.simps mpf_add_def mpf_sub_def
      mpf_mul_def mpf_result_def)

text \<open>
  Claim C8. For the centre \<open>(0, 0)\<close> and depth 1000 every iterate is zero, whatever the
  rounding, the bailout is never taken, and the orbit has exactly 1000 samples.
\<close>

theorem orbit_of_origin_depth_1000:
  "deep_zoom_point rnd get_d 0 0 1000 = replicate 1000 (Complex (get_d 0) (get_d 0))
   \<and> length (deep_zoom_point rnd get_d 0 0 1000) = 1000
   \<and> deep_zoom_exit rnd get_d 0 0 1000 = Depth_reached"
  by (simp add: deep_zoom_point_def deep_zoom_exit_def dzp_loop_zero)

subsection \<open>Screen coordinates\<close>

lemma click_offset_landscape:
  "snd wsize \<le> fst wsize \<Longrightarrow>
   click_offset wsize radius i j = pixel_d0 wsize radius i j"
  by (auto simp: pixel_d0_def click_offset_def Let_def)

lemma on_left_click_state:
  "0 < snd wsize \<Longrightarrow>
   on_left_click rnd wsize mx my vs =
     Inr \<lparr>vs_center_r = mpf_add rnd (vs_center_r vs)
            (vs_radius vs * (2 * of_int mx - of_nat (fst wsize)) / of_nat (snd wsize)),
          vs_center_i = mpf_add rnd (vs_center_i vs)
            (- vs_radius vs * (2 * of_int my - of_nat (snd wsize)) / of_nat (snd wsize)),
          vs_radius = vs_radius vs / 2\<rparr>"
  by (simp add: on_left_click_def click_offset_def bindE_def)

text \<open>
  Claim C6 says that the left click converts the screen position with the formula of
  \<^verbatim>\<open>pt\<close>, for every window size. \<^verbatim>\<open>pt\<close> divides by \<^verbatim>\<open>window_radius = min(W, H)\<close>, the
  click handler by \<^verbatim>\<open>size.y\<close>: in a window of 100 by 200 pixels with radius 2 the pixel
  \<open>(0, 0)\<close> is drawn for the offset \<open>(-2, 4)\<close> and a click on it moves the centre by
  \<open>(-1, 2)\<close>.
\<close>

theorem click_offset_differs_from_pixel_offset:
  "pixel_d0 (100, 200) 2 0 0 = Inr (Complex (- 2) 4)
   \<and> click_offset (100, 200) 2 0 0 = Inr (Complex (- 1) 2)"
  by (simp add: pixel_d0_def click_offset_def)

subsection \<open>The frame\<close>

lemma for_each_Inr:
  "(\<And>a s. a \<in> set as \<Longrightarrow> body a s = Inr s) \<Longrightarrow> for_each body as s = Inr s"
  by (induction as arbitrary: s) (simp_all add: bindE_def)

text \<open>
  Claim C7. When the window has no area (\<open>W = 0\<close> or \<open>H = 0\<close>) \<^verbatim>\<open>update\<close> leaves the vertex
  array as it is and fails nowhere, and the array that the \<^verbatim>\<open>Resized\<close> handler has sized
  to \<open>W * H\<close> is empty. No pixel is evaluated: \<^verbatim>\<open>pt\<close> divides by \<^verbatim>\<open>window_radius = 0\<close>
  at every pixel of such a window, and \<^verbatim>\<open>update\<close> would have failed with it.
\<close>

theorem update_zero_area:
  assumes "fst wsize = 0 \<or> snd wsize = 0"
  shows "update junk vset wsize x radius gradient = Inr vset
     \<and> on_resized junk vset wsize x radius gradient = Inr []
     \<and> pt junk i j x wsize radius gradient = Inl Division_by_zero"
proof -
  have upd: "update junk vs wsize x radius gradient = Inr vs" for vs
    using assms by (auto simp: update_def intro: for_each_Inr)
  have z: "fst wsize * snd wsize = 0" using assms by auto
  have "on_resized junk vset wsize x radius gradient = Inr []"
    unfolding on_resized_def Let_def z by (simp add: upd resize_def)
  moreover have "pt junk i j x wsize radius gradient = Inl Division_by_zero"
    using assms by (auto simp: pt_def pixel_d0_def bindE_def)
  ultimately show ?thesis using upd by simp
qed

theorem update_zero_area_witness:
  "(fst (0 :: nat, 5 :: nat) = 0 \<or> snd (0 :: nat, 5 :: nat) = 0)
   \<and> update (\<lambda>_. 0) [default_vertex] (0, 5) [0] 2 [Black] = Inr [default_vertex]
   \<and> on_resized (\<lambda>_. 0) [default_vertex] (0, 5) [0] 2 [Black] = Inr []
   \<and> pt (\<lambda>_. 0) 0 0 [0] (0, 5) 2 [Black] = Inl Division_by_zero"
  using update_zero_area [of "(0, 5)" "\<lambda>_. 0" "[default_vertex]" "[0]" 2 "[Black]" 0 0] by simp


end
